theory Spec2Isabelle
  imports
    Main
    "HOL-Library.Char_ord"
    "HOL-Library.List_Lexorder"
    "HOL-Library.Product_Lexorder"
    "HOL-Library.Sublist"
begin

section \<open>Strings of the program\<close>

text \<open>
  A Python \<open>str\<close> is modelled as a \<open>string\<close>: a list of characters, each standing for one
  code point below 256. Comparison of two strings is lexicographic on the code points
  (\<open>HOL-Library.List_Lexorder\<close> over \<open>HOL-Library.Char_ord\<close>), as Python compares \<open>str\<close>
  values, and a tuple key \<open>(-n, s)\<close> compares lexicographically
  (\<open>HOL-Library.Product_Lexorder\<close>).
\<close>

abbreviation TAB :: char where
  "TAB \<equiv> CHR 0x09"

abbreviation NL :: char where
  "NL \<equiv> CHR 0x0A"

text \<open>
  \<open>str.isspace\<close> on one code point below 256: the characters that \<open>str.strip()\<close> with no
  argument removes. These are tab, line feed, vertical tab, form feed, carriage return,
  the four separators 28 to 31, the space, NEL (133) and the no-break space (160).
\<close>

definition isspace :: "char \<Rightarrow> bool" where
  "isspace c = (of_char c \<in> {9, 10, 11, 12, 13, 28, 29, 30, 31, 32, 133, 160 :: nat})"

text \<open>\<open>line.strip()\<close>: whitespace is removed at both ends, never inside.\<close>

definition strip :: "string \<Rightarrow> string" where
  "strip s = rev (dropWhile isspace (rev (dropWhile isspace s)))"

text \<open>
  \<open>s.split(sep)\<close> for a one-character separator: every occurrence of the separator ends a
  field, empty fields are kept, and the result always has at least one field (the second
  branch of the \<open>case\<close> is never taken, see \<open>split_on_not_Nil\<close>).
\<close>

fun split_on :: "char \<Rightarrow> string \<Rightarrow> string list" where
  "split_on sep [] = [[]]"
| "split_on sep (c # cs) =
     (if c = sep then [] # split_on sep cs
      else (case split_on sep cs of
              p # ps \<Rightarrow> (c # p) # ps
            | [] \<Rightarrow> [[c]]))"

text \<open>\<open>sep.join(xs)\<close>.\<close>

fun join :: "string \<Rightarrow> string list \<Rightarrow> string" where
  "join sep [] = []"
| "join sep [x] = x"
| "join sep (x # y # ys) = x @ sep @ join sep (y # ys)"

text \<open>Decimal rendering of a number inside an f-string.\<close>

definition digit :: "nat \<Rightarrow> char" where
  "digit d = char_of (of_char (CHR ''0'') + d)"

fun str_nat :: "nat \<Rightarrow> string" where
  "str_nat n = (if n < 10 then [digit n] else str_nat (n div 10) @ [digit (n mod 10)])"

declare str_nat.simps [simp del]

definition str_int :: "int \<Rightarrow> string" where
  "str_int i = (if i < 0 then CHR ''-'' # str_nat (nat (- i)) else str_nat (nat i))"

section \<open>The grouping dictionary\<close>

text \<open>
  \<open>clusters = defaultdict(list)\<close> maps a representative to the list of its members. A Python
  dictionary keeps its keys in insertion order, and \<open>clusters.items()\<close> is read in that
  order, so the dictionary is an association list with one entry per key.
  \<open>clusters[representative].append(member)\<close> creates the empty list on first use of a key.
\<close>

type_synonym clusters = "(string \<times> string list) list"

fun dict_append :: "clusters \<Rightarrow> string \<Rightarrow> string \<Rightarrow> clusters" where
  "dict_append [] k v = [(k, [v])]"
| "dict_append ((k', vs) # d) k v =
     (if k' = k then (k', vs @ [v]) # d else (k', vs) # dict_append d k v)"

section \<open>Reading the TSV file\<close>

text \<open>
  One iteration of the loop over the lines of the input. The state is the dictionary and
  the lines printed so far on standard output.
\<close>

definition malformed_warning :: "string \<Rightarrow> string" where
  "malformed_warning line = ''Warning: Skipping malformed line: '' @ line"

definition process_line :: "clusters \<times> string list \<Rightarrow> string \<Rightarrow> clusters \<times> string list" where
  "process_line st line0 =
     (let line = strip line0 in
      if line = [] then st
      else
        let parts = split_on TAB line in
        if length parts < 2 then (fst st, snd st @ [malformed_warning line])
        else
          let representative = parts ! 0; member = parts ! 1 in
          (dict_append (fst st) representative member, snd st))"

text \<open>The two conditions under which the loop body goes past a line that is not blank.\<close>

definition malformed :: "string \<Rightarrow> bool" where
  "malformed line0 = (strip line0 \<noteq> [] \<and> length (split_on TAB (strip line0)) < 2)"

definition well_formed :: "string \<Rightarrow> bool" where
  "well_formed line0 = (strip line0 \<noteq> [] \<and> \<not> length (split_on TAB (strip line0)) < 2)"

text \<open>The pair \<open>(representative, member)\<close> that the loop body takes from a line.\<close>

definition record_of :: "string \<Rightarrow> string \<times> string" where
  "record_of line0 = (let parts = split_on TAB (strip line0) in (parts ! 0, parts ! 1))"

text \<open>All pairs \<open>(representative, member)\<close> that a dictionary holds.\<close>

definition pairs :: "clusters \<Rightarrow> (string \<times> string) set" where
  "pairs cl = set (concat (map (\<lambda>(r, ms). map (Pair r) ms) cl))"

definition ingest :: "string list \<Rightarrow> clusters \<times> string list" where
  "ingest ls = foldl process_line ([], []) ls"

text \<open>
  What opening and iterating the input file does: the file is missing
  (\<open>FileNotFoundError\<close> at \<open>open\<close>), or some other exception with text \<open>e\<close> is raised after
  the iterator has yielded the lines \<open>ls\<close> (none, when \<open>open\<close> itself raises), or the
  iterator yields the lines \<open>ls\<close> and ends.
\<close>

datatype tsv_source =
    Missing
  | Unreadable "string list" string
  | Readable "string list"

text \<open>
  The first \<open>try\<close> block. \<open>Inl\<close> is the lines printed before \<open>sys.exit(1)\<close>; \<open>Inr\<close> is the state
  after the loop.
\<close>

definition read_tsv :: "tsv_source \<Rightarrow> string \<Rightarrow> string list + clusters \<times> string list" where
  "read_tsv src tsv_file =
     (case src of
        Missing \<Rightarrow> Inl [''Error: File '' @ [CHR 0x27] @ tsv_file @ [CHR 0x27] @ '' not found.'']
      | Unreadable ls e \<Rightarrow> Inl (snd (ingest ls) @ [''Error reading file: '' @ e])
      | Readable ls \<Rightarrow> Inr (ingest ls))"

section \<open>Sorting and rendering\<close>

text \<open>
  \<open>sorted(clusters.items(), key=lambda x: (-len(x[1]), x[0]))\<close>. \<open>sort_key\<close> is a stable
  sort, as Python's is.
\<close>

definition cluster_key :: "string \<times> string list \<Rightarrow> int \<times> string" where
  "cluster_key x = (- int (length (snd x)), fst x)"

definition sorted_clusters :: "clusters \<Rightarrow> clusters" where
  "sorted_clusters cl = sort_key cluster_key cl"

text \<open>
  The order of that key on two groups: more members first, and among groups with the same
  number of members the smaller representative first.
\<close>

definition raw_before :: "string \<times> string list \<Rightarrow> string \<times> string list \<Rightarrow> bool" where
  "raw_before x y =
     (length (snd y) < length (snd x) \<or> length (snd x) = length (snd y) \<and> fst x < fst y)"

text \<open>\<open>sum(len(members) for _, members in sorted_clusters)\<close>.\<close>

definition total_sequences :: "clusters \<Rightarrow> nat" where
  "total_sequences sc = sum_list (map (\<lambda>(_, members). length members) sc)"

text \<open>\<open>sorted(set(members))\<close> and its length.\<close>

definition all_members :: "string list \<Rightarrow> string list" where
  "all_members members = sort (remdups members)"

definition reported_size :: "string list \<Rightarrow> nat" where
  "reported_size members = length (all_members members)"

text \<open>The order \<open>raw_before\<close> taken on the sizes that the cluster lines report.\<close>

definition reported_before :: "string \<times> string list \<Rightarrow> string \<times> string list \<Rightarrow> bool" where
  "reported_before x y =
     (reported_size (snd y) < reported_size (snd x)
      \<or> reported_size (snd x) = reported_size (snd y) \<and> fst x < fst y)"

text \<open>The six \<open>f.write\<close> calls of the header.\<close>

definition header :: "clusters \<Rightarrow> string list" where
  "header sc =
     [''# MMseqs2 Clusters'' @ [NL],
      ''# Total clusters: '' @ str_nat (length sc) @ [NL],
      ''# Total sequences: '' @ str_nat (total_sequences sc) @ [NL],
      ''#'' @ [NL],
      ''# Format: Cluster_ID<TAB>Size<TAB>Representative<TAB>Members (comma-separated)'' @ [NL],
      ''#'' @ [NL]]"

text \<open>The \<open>f.write\<close> call of one cluster, inside the loop over \<open>enumerate(sorted_clusters, 1)\<close>.\<close>

definition cluster_line :: "nat \<times> string \<times> string list \<Rightarrow> string" where
  "cluster_line x =
     (case x of (cluster_num, representative, members) \<Rightarrow>
        let size = reported_size members;
            members_str = join '','' (all_members members)
        in ''Cluster_'' @ str_nat cluster_num @ [TAB] @ str_nat size @ [TAB]
             @ representative @ [TAB] @ members_str @ [NL])"

definition report_chunks :: "clusters \<Rightarrow> string list" where
  "report_chunks sc = header sc @ map cluster_line (enumerate 1 sc)"

section \<open>Writing the report\<close>

text \<open>
  What the output path does when it is written: nothing goes wrong, or
  \<open>open(output_file, 'w')\<close> raises an exception with text \<open>e\<close>, or the file takes \<open>n\<close> bytes
  and no more (the disk is full, a size limit is reached) and storing a further byte
  raises an exception with text \<open>e\<close>.
\<close>

datatype out_fault =
    NoFault
  | OpenFault string
  | WriteFault nat string

text \<open>
  The content of the output path is \<open>None\<close> when the file does not exist. Opening with mode
  \<open>'w'\<close> creates the file or empties it. The file object is buffered: an \<open>f.write\<close> call only
  adds its argument to the buffer, and the bytes reach the file, in order, when the buffer
  is flushed, at the latest when leaving the \<open>with\<close> block closes the file. Both happen
  inside the \<open>try\<close> block. So the calls matter only through the concatenation of their
  arguments: when the file takes all of it the file holds the whole text, and otherwise
  the flush that meets the limit raises and the file is left with the first \<open>n\<close> bytes,
  wherever in a line that is. The result is the new content and the text of the exception,
  if one was raised. A character counts as one byte, which is so for ASCII text.
\<close>

definition write_report ::
  "out_fault \<Rightarrow> string option \<Rightarrow> string list \<Rightarrow> string option \<times> string option" where
  "write_report fault old chunks =
     (case fault of
        NoFault \<Rightarrow> (Some (concat chunks), None)
      | OpenFault e \<Rightarrow> (old, Some e)
      | WriteFault n e \<Rightarrow>
          if n < length (concat chunks) then (Some (take n (concat chunks)), Some e)
          else (Some (concat chunks), None))"


section \<open>The summary and the whole run\<close>

datatype py_error = IndexError

text \<open>
  \<open>len(sorted_clusters[0][1]) if sorted_clusters else 0\<close>: the condition is evaluated first,
  and indexing an empty list raises \<open>IndexError\<close>.
\<close>

fun index0 :: "'a list \<Rightarrow> py_error + 'a" where
  "index0 [] = Inl IndexError"
| "index0 (x # xs) = Inr x"

definition largest_cluster_size :: "clusters \<Rightarrow> py_error + nat" where
  "largest_cluster_size sc =
     (if sc \<noteq> [] then
        (case index0 sc of Inl err \<Rightarrow> Inl err | Inr x \<Rightarrow> Inr (length (snd x)))
      else Inr 0)"

record outcome =
  stdout :: "string list"
  exit_code :: nat
  out_file :: "string option"

text \<open>
  \<open>parse_mmseqs2_clusters(tsv_file, output_file)\<close>, with what the two paths do and the old
  content of the output path as further arguments. \<open>sys.exit(1)\<close> ends the run with exit
  code 1, as an exception that nothing catches does; returning ends it with exit code 0.
\<close>

definition parse_mmseqs2_clusters ::
  "tsv_source \<Rightarrow> out_fault \<Rightarrow> string option \<Rightarrow> string \<Rightarrow> string \<Rightarrow> outcome" where
  "parse_mmseqs2_clusters src fault old tsv_file output_file =
     (case read_tsv src tsv_file of
        Inl printed \<Rightarrow> \<lparr>stdout = printed, exit_code = 1, out_file = old\<rparr>
      | Inr (cl, printed) \<Rightarrow>
          let sc = sorted_clusters cl in
          (case write_report fault old (report_chunks sc) of
             (content, Some e) \<Rightarrow>
               \<lparr>stdout = printed @ [''Error writing output file: '' @ e],
                exit_code = 1, out_file = content\<rparr>
           | (content, None) \<Rightarrow>
               let printed2 = printed @
                     [''Successfully processed '' @ str_nat (length sc) @ '' clusters'',
                      ''Total sequences: '' @ str_nat (total_sequences sc)]
               in (case largest_cluster_size sc of
                     Inl err \<Rightarrow> \<lparr>stdout = printed2, exit_code = 1, out_file = content\<rparr>
                   | Inr n \<Rightarrow>
                       \<lparr>stdout = printed2 @
                          [''Largest cluster size: '' @ str_nat n,
                           ''Results written to: '' @ output_file],
                        exit_code = 0, out_file = content\<rparr>)))"

text \<open>The parsed command line, and \<open>main\<close>.\<close>

record args =
  cluster_tsv :: string
  output_file :: string
  min_size :: int

definition main :: "args \<Rightarrow> tsv_source \<Rightarrow> out_fault \<Rightarrow> string option \<Rightarrow> outcome" where
  "main a src fault old =
     (let note = (if min_size a > 1
                  then [''Note: Filtering clusters with size >= '' @ str_int (min_size a)]
                  else []);
          r = parse_mmseqs2_clusters src fault old (cluster_tsv a) (output_file a)
      in r\<lparr>stdout := note @ stdout r\<rparr>)"

section \<open>Splitting and stripping\<close>

lemma split_on_not_Nil: "split_on sep s \<noteq> []"
  by (induction s) (auto split: list.splits)

lemma split_on_no_sep: "sep \<notin> set s \<Longrightarrow> split_on sep s = [s]"
  by (induction s) auto

lemma split_on_append_sep:
  "sep \<notin> set a \<Longrightarrow> split_on sep (a @ sep # rest) = a # split_on sep rest"
  by (induction a) auto

lemma isspace_TAB: "isspace TAB"
  by (simp add: isspace_def)

lemma strip_decomp:
  "dropWhile isspace s = strip s @ rev (takeWhile isspace (rev (dropWhile isspace s)))"
proof -
  define t where "t = dropWhile isspace s"
  have "rev (rev t) = rev (takeWhile isspace (rev t) @ dropWhile isspace (rev t))"
    by (simp only: takeWhile_dropWhile_id)
  then have "t = rev (dropWhile isspace (rev t)) @ rev (takeWhile isspace (rev t))"
    by (simp only: rev_append rev_rev_ident)
  then show ?thesis by (simp add: strip_def t_def)
qed

lemma strip_hd: "strip s \<noteq> [] \<Longrightarrow> \<not> isspace (hd (strip s))"
proof -
  assume ne: "strip s \<noteq> []"
  have "dropWhile isspace s \<noteq> []"
  proof
    assume "dropWhile isspace s = []"
    then have "strip s = []" unfolding strip_def by (auto dest: set_dropWhileD)
    with ne show False by simp
  qed
  then have "\<not> isspace (hd (dropWhile isspace s))" by (rule hd_dropWhile)
  moreover have "hd (dropWhile isspace s) = hd (strip s)"
    using ne strip_decomp [of s] by (metis hd_append2)
  ultimately show ?thesis by simp
qed

lemma strip_last: "strip s \<noteq> [] \<Longrightarrow> \<not> isspace (last (strip s))"
proof -
  assume ne: "strip s \<noteq> []"
  then have ne': "dropWhile isspace (rev (dropWhile isspace s)) \<noteq> []" by (simp add: strip_def)
  then have "\<not> isspace (hd (dropWhile isspace (rev (dropWhile isspace s))))" by (rule hd_dropWhile)
  then show ?thesis using ne' by (simp add: strip_def last_rev)
qed

lemma strip_space_Cons: "isspace c \<Longrightarrow> strip (c # s) = strip s"
  by (simp add: strip_def)

lemma strip_space_append: "isspace c \<Longrightarrow> strip (s @ [c]) = strip s"
proof (cases "\<forall>x \<in> set s. isspace x")
  case True
  assume "isspace c"
  with True have "dropWhile isspace (s @ [c]) = []" "dropWhile isspace s = []"
    by simp_all
  then show ?thesis unfolding strip_def by (auto dest: set_dropWhileD)
next
  case False
  assume c: "isspace c"
  from False have "dropWhile isspace (s @ [c]) = dropWhile isspace s @ [c]"
    by (auto simp: dropWhile_append)
  with c show ?thesis by (simp add: strip_def)
qed

section \<open>The dictionary and the loop over the lines\<close>

lemma map_fst_dict_append:
  "map fst (dict_append d k v) = (if k \<in> set (map fst d) then map fst d else map fst d @ [k])"
  by (induction d k v rule: dict_append.induct) auto

lemma distinct_dict_append:
  "distinct (map fst d) \<Longrightarrow> distinct (map fst (dict_append d k v))"
  by (simp add: map_fst_dict_append)

lemma total_dict_append: "total_sequences (dict_append d k v) = Suc (total_sequences d)"
  by (induction d k v rule: dict_append.induct) (auto simp: total_sequences_def)

lemma sum_list_insort_key:
  "sum_list (map g (insort_key f x xs)) = g x + (sum_list (map g xs) :: nat)"
  by (induction xs) (auto simp: add_ac)

lemma sum_list_sort_key: "sum_list (map g (sort_key f xs)) = (sum_list (map g xs) :: nat)"
  by (induction xs) (auto simp: sum_list_insort_key)

lemma process_line_blank: "strip l = [] \<Longrightarrow> process_line st l = st"
  by (simp add: process_line_def)

lemma process_line_malformed:
  "malformed l \<Longrightarrow> process_line st l = (fst st, snd st @ [malformed_warning (strip l)])"
  by (simp add: process_line_def malformed_def Let_def)

lemma process_line_well_formed:
  "well_formed l \<Longrightarrow>
   process_line st l =
     (dict_append (fst st) (split_on TAB (strip l) ! 0) (split_on TAB (strip l) ! 1), snd st)"
  by (simp add: process_line_def well_formed_def Let_def)

lemma line_cases: "strip l = [] \<or> malformed l \<or> well_formed l"
  by (auto simp: malformed_def well_formed_def)

lemma process_line_split:
  "process_line (cl, out) l =
     (fst (process_line (cl, []) l), out @ snd (process_line ([], []) l))"
  by (simp add: process_line_def Let_def)

lemma foldl_process_line:
  "foldl process_line (cl, out) ls =
     (foldl (\<lambda>c l. fst (process_line (c, []) l)) cl ls,
      out @ concat (map (\<lambda>l. snd (process_line ([], []) l)) ls))"
proof (induction ls arbitrary: cl out)
  case Nil
  show ?case by simp
next
  case (Cons l ls)
  have "foldl process_line (cl, out) (l # ls) =
        foldl process_line (fst (process_line (cl, []) l), out @ snd (process_line ([], []) l)) ls"
    by (simp only: foldl_Cons process_line_split [of cl out l])
  also have "\<dots> = (foldl (\<lambda>c l. fst (process_line (c, []) l)) (fst (process_line (cl, []) l)) ls,
      (out @ snd (process_line ([], []) l)) @ concat (map (\<lambda>l. snd (process_line ([], []) l)) ls))"
    by (rule Cons.IH)
  finally show ?case by simp
qed

lemma fst_ingest: "fst (ingest ls) = foldl (\<lambda>c l. fst (process_line (c, []) l)) [] ls"
  by (simp add: ingest_def foldl_process_line)

lemma snd_ingest: "snd (ingest ls) = concat (map (\<lambda>l. snd (process_line ([], []) l)) ls)"
  by (simp add: ingest_def foldl_process_line)

lemma fst_ingest_skip:
  "fst (process_line (fst (ingest xs), []) l) = fst (ingest xs) \<Longrightarrow>
   fst (ingest (xs @ l # ys)) = fst (ingest (xs @ ys))"
  by (simp add: fst_ingest)

lemma total_foldl:
  "total_sequences (foldl (\<lambda>c l. fst (process_line (c, []) l)) cl ls) =
   total_sequences cl + length (filter well_formed ls)"
proof (induction ls arbitrary: cl)
  case Nil
  show ?case by simp
next
  case (Cons l ls)
  from line_cases [of l] show ?case
  proof (elim disjE)
    assume "strip l = []"
    then show ?thesis using Cons.IH [of cl]
      by (simp add: process_line_blank well_formed_def)
  next
    assume m: "malformed l"
    then have "\<not> well_formed l" by (simp add: malformed_def well_formed_def)
    with m show ?thesis using Cons.IH [of cl]
      by (simp add: process_line_malformed)
  next
    assume w: "well_formed l"
    then show ?thesis
      using Cons.IH [of "dict_append cl (split_on TAB (strip l) ! 0) (split_on TAB (strip l) ! 1)"]
      by (simp add: process_line_well_formed total_dict_append)
  qed
qed

lemma total_ingest: "total_sequences (fst (ingest ls)) = length (filter well_formed ls)"
  by (simp add: fst_ingest total_foldl) (simp add: total_sequences_def)

lemma distinct_foldl:
  "distinct (map fst cl) \<Longrightarrow>
   distinct (map fst (foldl (\<lambda>c l. fst (process_line (c, []) l)) cl ls))"
proof (induction ls arbitrary: cl)
  case Nil
  then show ?case by simp
next
  case (Cons l ls)
  have "distinct (map fst (fst (process_line (cl, []) l)))"
    using line_cases [of l] Cons.prems
    by (auto simp: process_line_blank process_line_malformed process_line_well_formed
        distinct_dict_append)
  then show ?case using Cons.IH by simp
qed

lemma distinct_ingest: "distinct (map fst (fst (ingest ls)))"
  by (simp add: fst_ingest distinct_foldl)

lemma total_sorted_clusters: "total_sequences (sorted_clusters cl) = total_sequences cl"
  by (simp add: total_sequences_def sorted_clusters_def sum_list_sort_key)

section \<open>The totals of the header\<close>

lemma reported_size_card: "reported_size m = card (set m)"
  by (simp add: reported_size_def all_members_def length_remdups_card_conv)

lemma reported_size_le: "reported_size m \<le> length m"
  by (simp add: reported_size_def all_members_def)

lemma reported_size_distinct: "distinct m \<Longrightarrow> reported_size m = length m"
  by (simp add: reported_size_def all_members_def)

lemma header_total_line:
  "report_chunks sc ! 2 = ''# Total sequences: '' @ str_nat (total_sequences sc) @ [NL]"
  by (simp add: report_chunks_def header_def)

lemma total_sorted_ingest:
  "total_sequences (sorted_clusters (fst (ingest ls))) = length (filter well_formed ls)"
  by (simp add: total_sorted_clusters total_ingest)

lemma sum_reported_le: "sum_list (map (reported_size \<circ> snd) sc) \<le> total_sequences sc"
  unfolding total_sequences_def
  by (rule sum_list_mono) (auto simp: reported_size_le)

lemma sum_reported_distinct:
  "\<forall>x \<in> set sc. distinct (snd x) \<Longrightarrow>
   sum_list (map (reported_size \<circ> snd) sc) = total_sequences sc"
  unfolding total_sequences_def
  by (rule arg_cong [where f = sum_list]) (auto simp: reported_size_distinct)

text \<open>
  Claim C1, as the code has it. The third line of the report, \<open># Total sequences: N\<close>, gives
  the sum of the raw member counts of the groups, which is the number of input lines that
  were accepted as records; it is not the sum of the deduplicated counts. The sizes on the
  cluster lines are the deduplicated counts (the number of distinct members of each
  group); their sum never exceeds the header value and equals it when no group holds a
  repeated member.
\<close>

theorem total_sequences_header:
  assumes "sc = sorted_clusters (fst (ingest ls))"
  shows "report_chunks sc ! 2 =
           ''# Total sequences: '' @ str_nat (length (filter well_formed ls)) @ [NL]
         \<and> sum_list (map (reported_size \<circ> snd) sc) = sum_list (map (card \<circ> set \<circ> snd) sc)
         \<and> sum_list (map (reported_size \<circ> snd) sc) \<le> length (filter well_formed ls)
         \<and> ((\<forall>x \<in> set sc. distinct (snd x)) \<longrightarrow>
              sum_list (map (reported_size \<circ> snd) sc) = length (filter well_formed ls))"
proof -
  have t: "total_sequences sc = length (filter well_formed ls)"
    using assms by (simp add: total_sorted_ingest)
  have m: "map (reported_size \<circ> snd) sc = map (card \<circ> set \<circ> snd) sc"
    by (simp add: reported_size_card)
  have c1: "report_chunks sc ! 2 =
      ''# Total sequences: '' @ str_nat (length (filter well_formed ls)) @ [NL]"
    using header_total_line [of sc] by (simp only: t)
  have c2: "sum_list (map (reported_size \<circ> snd) sc) = sum_list (map (card \<circ> set \<circ> snd) sc)"
    by (simp only: m)
  have c3: "sum_list (map (reported_size \<circ> snd) sc) \<le> length (filter well_formed ls)"
    using sum_reported_le [of sc] by (simp only: t)
  have c4: "(\<forall>x \<in> set sc. distinct (snd x)) \<longrightarrow>
      sum_list (map (reported_size \<circ> snd) sc) = length (filter well_formed ls)"
    using sum_reported_distinct [of sc] by (simp only: t) blast
  from c1 c2 c3 c4 show ?thesis by blast
qed

text \<open>
  The theorem at the input \<open>A<TAB>A\<close>, \<open>A<TAB>B\<close>, \<open>C<TAB>C\<close>: no group has a repeated member,
  the header says 3 and the two sizes add up to 3.
\<close>

theorem total_sequences_header_witness:
  "report_chunks [(''A'', [''A'', ''B'']), (''C'', [''C''])] ! 2 = ''# Total sequences: 3'' @ [NL]
   \<and> sum_list (map (reported_size \<circ> snd) [(''A'', [''A'', ''B'']), (''C'', [''C''])]) = 3"
proof -
  have h: "[(''A'', [''A'', ''B'']), (''C'', [''C''])] =
           sorted_clusters (fst (ingest [''A'' @ [TAB] @ ''A'' @ [NL], ''A'' @ [TAB] @ ''B'' @ [NL],
              ''C'' @ [TAB] @ ''C'' @ [NL]]))"
    by code_simp
  have n: "length (filter well_formed [''A'' @ [TAB] @ ''A'' @ [NL], ''A'' @ [TAB] @ ''B'' @ [NL],
              ''C'' @ [TAB] @ ''C'' @ [NL]]) = 3"
    by code_simp
  have s: "str_nat 3 = ''3''"
    by code_simp
  show ?thesis
    using total_sequences_header [OF h, unfolded n s] by simp
qed

text \<open>
  The claim as the specification words it fails when a record is repeated: for the input
  \<open>A<TAB>B\<close>, \<open>A<TAB>B\<close> the header says 2 and the only cluster line gives size 1.
\<close>

theorem total_sequences_header_counterexample:
  "total_sequences (sorted_clusters (fst (ingest
       [''A'' @ [TAB] @ ''B'' @ [NL], ''A'' @ [TAB] @ ''B'' @ [NL]]))) = 2
   \<and> sum_list (map (reported_size \<circ> snd) (sorted_clusters (fst (ingest
       [''A'' @ [TAB] @ ''B'' @ [NL], ''A'' @ [TAB] @ ''B'' @ [NL]])))) = 1
   \<and> out_file (parse_mmseqs2_clusters
        (Readable [''A'' @ [TAB] @ ''B'' @ [NL], ''A'' @ [TAB] @ ''B'' @ [NL]])
        NoFault None ''clusters.tsv'' ''numbered_clusters.txt'') =
     Some (''# MMseqs2 Clusters'' @ [NL] @
           ''# Total clusters: 1'' @ [NL] @
           ''# Total sequences: 2'' @ [NL] @
           ''#'' @ [NL] @
           ''# Format: Cluster_ID<TAB>Size<TAB>Representative<TAB>Members (comma-separated)'' @ [NL] @
           ''#'' @ [NL] @
           ''Cluster_1'' @ [TAB] @ ''1'' @ [TAB] @ ''A'' @ [TAB] @ ''B'' @ [NL])"
  by code_simp

section \<open>The order of the cluster lines\<close>

lemma cluster_key_less: "cluster_key x < cluster_key y \<longleftrightarrow> raw_before x y"
  by (auto simp: cluster_key_def raw_before_def)

lemma distinct_map_fst_sorted_clusters:
  "distinct (map fst cl) \<Longrightarrow> distinct (map fst (sorted_clusters cl))"
  by (simp add: sorted_clusters_def distinct_map)

lemma distinct_map_cluster_key:
  assumes "distinct (map fst sc)"
  shows "distinct (map cluster_key sc)"
  using assms by (auto simp: distinct_map inj_on_def cluster_key_def)

lemma sorted_clusters_raw_before:
  assumes "distinct (map fst cl)"
  shows "sorted_wrt raw_before (sorted_clusters cl)"
proof -
  have "sorted (map cluster_key (sorted_clusters cl))"
    by (simp add: sorted_clusters_def)
  moreover have "distinct (map cluster_key (sorted_clusters cl))"
    using assms by (intro distinct_map_cluster_key distinct_map_fst_sorted_clusters)
  ultimately have "sorted_wrt (<) (map cluster_key (sorted_clusters cl))"
    by (simp add: strict_sorted_iff)
  then show ?thesis
    by (simp add: sorted_wrt_map cluster_key_less)
qed

lemma raw_before_reported:
  "distinct (snd x) \<Longrightarrow> distinct (snd y) \<Longrightarrow> raw_before x y \<Longrightarrow> reported_before x y"
  by (simp add: raw_before_def reported_before_def reported_size_distinct)

lemma cluster_lines_of_report: "drop 6 (report_chunks sc) = map cluster_line (enumerate 1 sc)"
  by (simp add: report_chunks_def header_def)

text \<open>
  Claim C2, as the code has it. After the six header lines the report holds one line per
  group, numbered from 1 in the order of \<open>sorted_clusters\<close>. That order is by descending raw
  member count (the length of the list before deduplication), and among groups with the
  same raw count by ascending representative; no two groups compare equal, since the
  representatives differ. When no group holds a repeated member, the raw count is the
  reported size, and the lines are in descending order of the reported size.
\<close>

theorem cluster_order:
  assumes "sc = sorted_clusters (fst (ingest ls))"
  shows "drop 6 (report_chunks sc) = map cluster_line (enumerate 1 sc)
         \<and> sorted_wrt raw_before sc
         \<and> ((\<forall>x \<in> set sc. distinct (snd x)) \<longrightarrow> sorted_wrt reported_before sc)"
proof -
  have r: "sorted_wrt raw_before sc"
    unfolding assms by (rule sorted_clusters_raw_before) (rule distinct_ingest)
  have "sorted_wrt reported_before sc" if "\<forall>x \<in> set sc. distinct (snd x)"
    using that r by (auto intro: sorted_wrt_mono_rel [where P = raw_before] raw_before_reported)
  with r cluster_lines_of_report [of sc] show ?thesis by blast
qed

text \<open>
  The theorem at the input \<open>C<TAB>c\<close>, \<open>B<TAB>y\<close>, \<open>A<TAB>x\<close>, \<open>A<TAB>z\<close>, where no group has a
  repeated member: \<open>A\<close> with two members comes first, then \<open>B\<close> before \<open>C\<close>.
\<close>

theorem cluster_order_witness:
  "sorted_wrt raw_before [(''A'', [''x'', ''z'']), (''B'', [''y'']), (''C'', [''c''])]
   \<and> sorted_wrt reported_before [(''A'', [''x'', ''z'']), (''B'', [''y'']), (''C'', [''c''])]"
proof -
  have h: "[(''A'', [''x'', ''z'']), (''B'', [''y'']), (''C'', [''c''])] =
           sorted_clusters (fst (ingest [''C'' @ [TAB] @ ''c'' @ [NL], ''B'' @ [TAB] @ ''y'' @ [NL],
              ''A'' @ [TAB] @ ''x'' @ [NL], ''A'' @ [TAB] @ ''z'' @ [NL]]))"
    by code_simp
  have d: "\<forall>x \<in> set [(''A'', [''x'', ''z'']), (''B'', [''y'']), (''C'', [''c''])]. distinct (snd x)"
    by simp
  show ?thesis
    using cluster_order [OF h] d by blast
qed

text \<open>
  The claim as the specification words it fails when a record is repeated: for the input
  \<open>A<TAB>x\<close> three times, then \<open>B<TAB>y\<close> and \<open>B<TAB>z\<close>, the group \<open>A\<close> has raw count 3 and comes
  first with reported size 1, before the group \<open>B\<close> with reported size 2.
\<close>

theorem cluster_order_counterexample:
  "map (reported_size \<circ> snd) (sorted_clusters (fst (ingest
       [''A'' @ [TAB] @ ''x'' @ [NL], ''A'' @ [TAB] @ ''x'' @ [NL], ''A'' @ [TAB] @ ''x'' @ [NL],
        ''B'' @ [TAB] @ ''y'' @ [NL], ''B'' @ [TAB] @ ''z'' @ [NL]]))) = [1, 2]
   \<and> \<not> sorted_wrt reported_before (sorted_clusters (fst (ingest
       [''A'' @ [TAB] @ ''x'' @ [NL], ''A'' @ [TAB] @ ''x'' @ [NL], ''A'' @ [TAB] @ ''x'' @ [NL],
        ''B'' @ [TAB] @ ''y'' @ [NL], ''B'' @ [TAB] @ ''z'' @ [NL]])))
   \<and> out_file (parse_mmseqs2_clusters
        (Readable [''A'' @ [TAB] @ ''x'' @ [NL], ''A'' @ [TAB] @ ''x'' @ [NL],
           ''A'' @ [TAB] @ ''x'' @ [NL], ''B'' @ [TAB] @ ''y'' @ [NL], ''B'' @ [TAB] @ ''z'' @ [NL]])
        NoFault None ''clusters.tsv'' ''numbered_clusters.txt'') =
     Some (''# MMseqs2 Clusters'' @ [NL] @
           ''# Total clusters: 2'' @ [NL] @
           ''# Total sequences: 5'' @ [NL] @
           ''#'' @ [NL] @
           ''# Format: Cluster_ID<TAB>Size<TAB>Representative<TAB>Members (comma-separated)'' @ [NL] @
           ''#'' @ [NL] @
           ''Cluster_1'' @ [TAB] @ ''1'' @ [TAB] @ ''A'' @ [TAB] @ ''x'' @ [NL] @
           ''Cluster_2'' @ [TAB] @ ''2'' @ [TAB] @ ''B'' @ [TAB] @ ''y,z'' @ [NL])"
  by code_simp

section \<open>A run that reads and writes without an exception\<close>

lemma largest_cluster_size_eq:
  "largest_cluster_size sc = Inr (case sc of [] \<Rightarrow> 0 | x # _ \<Rightarrow> length (snd x))"
  by (cases sc) (simp_all add: largest_cluster_size_def)

lemma write_report_ok:
  "snd (write_report fault old chunks) = None \<Longrightarrow>
   write_report fault old chunks = (Some (concat chunks), None)"
  by (cases fault) (auto simp: write_report_def split: if_splits)

lemma parse_success:
  assumes "sc = sorted_clusters (fst (ingest ls))"
    and "snd (write_report fault old (report_chunks sc)) = None"
  shows "parse_mmseqs2_clusters (Readable ls) fault old tsv_path out_path =
     \<lparr>stdout = snd (ingest ls) @
        [''Successfully processed '' @ str_nat (length sc) @ '' clusters'',
         ''Total sequences: '' @ str_nat (total_sequences sc),
         ''Largest cluster size: '' @ str_nat (case sc of [] \<Rightarrow> 0 | x # _ \<Rightarrow> length (snd x)),
         ''Results written to: '' @ out_path],
      exit_code = 0, out_file = Some (concat (report_chunks sc))\<rparr>"
proof -
  have w: "write_report fault old (report_chunks (sorted_clusters (fst (ingest ls)))) =
      (Some (concat (report_chunks sc)), None)"
    using write_report_ok [OF assms(2)] by (simp only: assms(1))
  show ?thesis
    by (simp add: parse_mmseqs2_clusters_def read_tsv_def split_beta Let_def w
        largest_cluster_size_eq assms(1))
qed

lemma raw_before_first:
  assumes "sorted_wrt raw_before sc" and "x \<in> set sc"
  shows "length (snd x) \<le> length (snd (sc ! 0))"
proof (cases sc)
  case Nil
  with assms(2) show ?thesis by simp
next
  case (Cons y ys)
  with assms show ?thesis by (auto simp: raw_before_def)
qed

text \<open>
  Claim C3. When the report has been written and there is at least one group, the third
  line of the summary on standard output is \<open>Largest cluster size: N\<close> with \<open>N\<close> the raw
  member count (before deduplication) of the first group of the sorted order; no group
  has a larger raw count. That number can differ from the size the report gives for the
  same cluster: there is an input for which it does.
\<close>

theorem largest_cluster_is_raw:
  assumes "sc = sorted_clusters (fst (ingest ls))"
    and "sc \<noteq> []"
    and "snd (write_report fault old (report_chunks sc)) = None"
  shows "stdout (parse_mmseqs2_clusters (Readable ls) fault old tsv_path out_path) =
           snd (ingest ls) @
           [''Successfully processed '' @ str_nat (length sc) @ '' clusters'',
            ''Total sequences: '' @ str_nat (total_sequences sc),
            ''Largest cluster size: '' @ str_nat (length (snd (sc ! 0))),
            ''Results written to: '' @ out_path]
         \<and> (\<forall>x \<in> set sc. length (snd x) \<le> length (snd (sc ! 0)))
         \<and> (\<exists>ls'. sorted_clusters (fst (ingest ls')) \<noteq> []
              \<and> length (snd (sorted_clusters (fst (ingest ls')) ! 0))
                  \<noteq> reported_size (snd (sorted_clusters (fst (ingest ls')) ! 0)))"
proof -
  have c: "(case sc of [] \<Rightarrow> 0 | x # _ \<Rightarrow> length (snd x)) = length (snd (sc ! 0))"
    using assms(2) by (cases sc) simp_all
  have a: "stdout (parse_mmseqs2_clusters (Readable ls) fault old tsv_path out_path) =
           snd (ingest ls) @
           [''Successfully processed '' @ str_nat (length sc) @ '' clusters'',
            ''Total sequences: '' @ str_nat (total_sequences sc),
            ''Largest cluster size: '' @ str_nat (length (snd (sc ! 0))),
            ''Results written to: '' @ out_path]"
    by (simp only: parse_success [OF assms(1) assms(3)] c) simp
  have "sorted_wrt raw_before sc"
    unfolding assms(1) by (rule sorted_clusters_raw_before) (rule distinct_ingest)
  then have b: "\<forall>x \<in> set sc. length (snd x) \<le> length (snd (sc ! 0))"
    by (blast intro: raw_before_first)
  have "sorted_clusters (fst (ingest [''A'' @ [TAB] @ ''B'' @ [NL], ''A'' @ [TAB] @ ''B'' @ [NL]])) \<noteq> []
      \<and> length (snd (sorted_clusters (fst (ingest
            [''A'' @ [TAB] @ ''B'' @ [NL], ''A'' @ [TAB] @ ''B'' @ [NL]])) ! 0))
          \<noteq> reported_size (snd (sorted_clusters (fst (ingest
            [''A'' @ [TAB] @ ''B'' @ [NL], ''A'' @ [TAB] @ ''B'' @ [NL]])) ! 0))"
    by code_simp
  then have d: "\<exists>ls'. sorted_clusters (fst (ingest ls')) \<noteq> []
              \<and> length (snd (sorted_clusters (fst (ingest ls')) ! 0))
                  \<noteq> reported_size (snd (sorted_clusters (fst (ingest ls')) ! 0))"
    by (rule exI)
  from a b d show ?thesis by blast
qed

text \<open>
  The theorem at the input \<open>A<TAB>B\<close>, \<open>A<TAB>B\<close>: the summary says 2, the cluster line of the
  report says 1.
\<close>

theorem largest_cluster_is_raw_witness:
  "stdout (parse_mmseqs2_clusters
      (Readable [''A'' @ [TAB] @ ''B'' @ [NL], ''A'' @ [TAB] @ ''B'' @ [NL]])
      NoFault None ''clusters.tsv'' ''numbered_clusters.txt'') =
     [''Successfully processed 1 clusters'', ''Total sequences: 2'',
      ''Largest cluster size: 2'', ''Results written to: numbered_clusters.txt'']
   \<and> reported_size (snd ([(''A'', [''B'', ''B''])] ! 0)) = 1"
proof -
  have h: "[(''A'', [''B'', ''B''])] =
      sorted_clusters (fst (ingest [''A'' @ [TAB] @ ''B'' @ [NL], ''A'' @ [TAB] @ ''B'' @ [NL]]))"
    by code_simp
  have n: "[(''A'', [''B'', ''B''])] \<noteq> []"
    by simp
  have w: "snd (write_report NoFault None (report_chunks [(''A'', [''B'', ''B''])])) = None"
    by (simp add: write_report_def)
  have i: "snd (ingest [''A'' @ [TAB] @ ''B'' @ [NL], ''A'' @ [TAB] @ ''B'' @ [NL]]) = []"
    by code_simp
  have s: "str_nat (Suc 0) = ''1''" "str_nat (Suc (Suc 0)) = ''2''" "str_nat 2 = ''2''"
    "total_sequences [(''A'', [''B'', ''B''])] = 2"
    "reported_size [''B'', ''B''] = 1"
    by code_simp+
  show ?thesis
    using largest_cluster_is_raw [OF h n w, of "''clusters.tsv''" "''numbered_clusters.txt''",
        unfolded i]
    by (simp add: s)
qed

section \<open>A run without any cluster\<close>

lemma no_well_formed_foldl:
  "\<forall>l \<in> set ls. \<not> well_formed l \<Longrightarrow>
   foldl (\<lambda>c l. fst (process_line (c, []) l)) cl ls = cl"
proof (induction ls)
  case Nil
  show ?case by simp
next
  case (Cons l ls)
  then have "\<not> well_formed l" by simp
  then have "fst (process_line (cl, []) l) = cl"
    using line_cases [of l] by (auto simp: process_line_blank process_line_malformed)
  with Cons show ?case by simp
qed

lemma ingest_no_records: "filter well_formed ls = [] \<Longrightarrow> fst (ingest ls) = []"
  by (simp add: fst_ingest no_well_formed_foldl filter_empty_conv)

lemma str_nat_0: "str_nat 0 = ''0''"
  by code_simp

text \<open>
  Claim C10. The expression behind \<open>Largest cluster size\<close> never raises \<open>IndexError\<close>, whatever
  the sorted list is. When no line of the input is a record (an empty file, for one) and
  the report is written, the value is 0, the four summary lines are printed after the
  warnings, the report is the bare header, and the exit code is 0.
\<close>

theorem zero_clusters_run:
  assumes "filter well_formed ls = []"
    and "snd (write_report fault old (report_chunks [])) = None"
  shows "(\<forall>sc. largest_cluster_size sc \<noteq> Inl IndexError)
         \<and> largest_cluster_size (sorted_clusters (fst (ingest ls))) = Inr 0
         \<and> parse_mmseqs2_clusters (Readable ls) fault old tsv_path out_path =
             \<lparr>stdout = snd (ingest ls) @
                [''Successfully processed 0 clusters'', ''Total sequences: 0'',
                 ''Largest cluster size: 0'', ''Results written to: '' @ out_path],
              exit_code = 0, out_file = Some (concat (header []))\<rparr>"
proof -
  have e: "[] = sorted_clusters (fst (ingest ls))"
    using assms(1) by (simp add: ingest_no_records sorted_clusters_def)
  have a: "\<forall>sc. largest_cluster_size sc \<noteq> Inl IndexError"
    by (simp add: largest_cluster_size_eq)
  have b: "largest_cluster_size (sorted_clusters (fst (ingest ls))) = Inr 0"
    by (simp add: largest_cluster_size_eq e [symmetric])
  have c: "parse_mmseqs2_clusters (Readable ls) fault old tsv_path out_path =
             \<lparr>stdout = snd (ingest ls) @
                [''Successfully processed 0 clusters'', ''Total sequences: 0'',
                 ''Largest cluster size: 0'', ''Results written to: '' @ out_path],
              exit_code = 0, out_file = Some (concat (header []))\<rparr>"
    using parse_success [OF e assms(2), of tsv_path out_path]
    by (simp add: str_nat_0 total_sequences_def report_chunks_def)
  from a b c show ?thesis by blast
qed

text \<open>The theorem for a file with one line without a tab and one blank line.\<close>

theorem zero_clusters_run_witness:
  "parse_mmseqs2_clusters (Readable [''justonefield'' @ [NL], [NL]]) NoFault None
      ''clusters.tsv'' ''numbered_clusters.txt'' =
     \<lparr>stdout = [''Warning: Skipping malformed line: justonefield'',
                ''Successfully processed 0 clusters'', ''Total sequences: 0'',
                ''Largest cluster size: 0'', ''Results written to: numbered_clusters.txt''],
      exit_code = 0,
      out_file = Some (''# MMseqs2 Clusters'' @ [NL] @
           ''# Total clusters: 0'' @ [NL] @
           ''# Total sequences: 0'' @ [NL] @
           ''#'' @ [NL] @
           ''# Format: Cluster_ID<TAB>Size<TAB>Representative<TAB>Members (comma-separated)'' @ [NL] @
           ''#'' @ [NL])\<rparr>"
proof -
  have f: "filter well_formed [''justonefield'' @ [NL], [NL]] = []"
    by code_simp
  have w: "snd (write_report NoFault None (report_chunks [])) = None"
    by (simp add: write_report_def)
  have i: "snd (ingest [''justonefield'' @ [NL], [NL]]) =
      [''Warning: Skipping malformed line: justonefield'']"
    by code_simp
  have h: "concat (header []) = ''# MMseqs2 Clusters'' @ [NL] @
           ''# Total clusters: 0'' @ [NL] @
           ''# Total sequences: 0'' @ [NL] @
           ''#'' @ [NL] @
           ''# Format: Cluster_ID<TAB>Size<TAB>Representative<TAB>Members (comma-separated)'' @ [NL] @
           ''#'' @ [NL]"
    by code_simp
  show ?thesis
    using zero_clusters_run [OF f w, of "''clusters.tsv''" "''numbered_clusters.txt''",
        unfolded i h]
    by simp
qed

section \<open>Lines that are skipped\<close>

lemma pairs_dict_append: "pairs (dict_append d k v) = insert (k, v) (pairs d)"
  by (induction d k v rule: dict_append.induct) (auto simp: pairs_def)

lemma process_line_record:
  "well_formed l \<Longrightarrow>
   process_line st l = (dict_append (fst st) (fst (record_of l)) (snd (record_of l)), snd st)"
  by (simp add: process_line_well_formed record_of_def Let_def)

lemma pairs_foldl:
  "pairs (foldl (\<lambda>c l. fst (process_line (c, []) l)) cl ls) =
   pairs cl \<union> record_of ` {l \<in> set ls. well_formed l}"
proof (induction ls arbitrary: cl)
  case Nil
  show ?case by simp
next
  case (Cons l ls)
  show ?case
  proof (cases "well_formed l")
    case True
    then show ?thesis
      using Cons.IH [of "dict_append cl (fst (record_of l)) (snd (record_of l))"]
      by (auto simp: process_line_record pairs_dict_append)
  next
    case False
    then have "fst (process_line (cl, []) l) = cl"
      using line_cases [of l] by (auto simp: process_line_blank process_line_malformed)
    with False show ?thesis using Cons.IH [of cl] by auto
  qed
qed

lemma pairs_ingest: "pairs (fst (ingest ls)) = record_of ` {l \<in> set ls. well_formed l}"
  by (simp add: fst_ingest pairs_foldl) (simp add: pairs_def)

lemma pairs_sorted_clusters: "pairs (sorted_clusters cl) = pairs cl"
  by (simp add: pairs_def sorted_clusters_def)

lemma malformed_not_well_formed: "malformed l \<Longrightarrow> \<not> well_formed l"
  by (simp add: malformed_def well_formed_def)

lemma fst_ingest_malformed:
  "malformed l \<Longrightarrow> fst (ingest (xs @ l # ys)) = fst (ingest (xs @ ys))"
  by (rule fst_ingest_skip) (simp add: process_line_malformed)

lemma snd_ingest_malformed:
  "malformed l \<Longrightarrow>
   snd (ingest (xs @ l # ys)) = snd (ingest xs) @ malformed_warning (strip l) # snd (ingest ys)"
  by (simp add: snd_ingest process_line_malformed)

lemma parse_same_clusters:
  assumes "fst (ingest ls) = fst (ingest ls')"
  shows "out_file (parse_mmseqs2_clusters (Readable ls) fault old tsv_path out_path) =
         out_file (parse_mmseqs2_clusters (Readable ls') fault old tsv_path out_path)
       \<and> exit_code (parse_mmseqs2_clusters (Readable ls) fault old tsv_path out_path) =
         exit_code (parse_mmseqs2_clusters (Readable ls') fault old tsv_path out_path)"
  by (simp add: parse_mmseqs2_clusters_def read_tsv_def split_beta Let_def assms
      largest_cluster_size_eq split: option.splits)

text \<open>
  Claim C5. Let a line be non-empty after stripping and split into fewer than two fields.
  Wherever it stands in the input, the loop prints the warning with the stripped line at
  that place, between the warnings of the lines before and after it, and goes on; the
  dictionary after the loop is the one the input without that line gives. So every pair of
  representative and member of the sorted clusters is the first two fields of one of the
  other lines, and the report file and the exit code are those of the input without it.
\<close>

theorem malformed_line_skipped:
  assumes "malformed l"
  shows "snd (ingest (xs @ l # ys)) =
           snd (ingest xs) @ (''Warning: Skipping malformed line: '' @ strip l) # snd (ingest ys)
         \<and> fst (ingest (xs @ l # ys)) = fst (ingest (xs @ ys))
         \<and> pairs (sorted_clusters (fst (ingest (xs @ l # ys)))) =
             record_of ` {l' \<in> set (xs @ ys). well_formed l'}
         \<and> out_file (parse_mmseqs2_clusters (Readable (xs @ l # ys)) fault old tsv_path out_path) =
             out_file (parse_mmseqs2_clusters (Readable (xs @ ys)) fault old tsv_path out_path)
         \<and> exit_code (parse_mmseqs2_clusters (Readable (xs @ l # ys)) fault old tsv_path out_path) =
             exit_code (parse_mmseqs2_clusters (Readable (xs @ ys)) fault old tsv_path out_path)"
proof -
  have a: "snd (ingest (xs @ l # ys)) =
           snd (ingest xs) @ (''Warning: Skipping malformed line: '' @ strip l) # snd (ingest ys)"
    using snd_ingest_malformed [OF assms, of xs ys] by (simp only: malformed_warning_def)
  have b: "fst (ingest (xs @ l # ys)) = fst (ingest (xs @ ys))"
    by (rule fst_ingest_malformed [OF assms])
  have c: "pairs (sorted_clusters (fst (ingest (xs @ l # ys)))) =
             record_of ` {l' \<in> set (xs @ ys). well_formed l'}"
    by (simp only: b pairs_sorted_clusters pairs_ingest)
  from a b c parse_same_clusters [OF b, of fault old tsv_path out_path] show ?thesis
    by blast
qed

text \<open>The theorem for the line \<open>justonefield\<close> between \<open>A<TAB>B\<close> and \<open>C<TAB>D\<close>.\<close>

theorem malformed_line_skipped_witness:
  "snd (ingest ([''A'' @ [TAB] @ ''B'' @ [NL]] @ (''justonefield'' @ [NL]) # [''C'' @ [TAB] @ ''D'' @ [NL]])) =
     [''Warning: Skipping malformed line: justonefield'']
   \<and> fst (ingest ([''A'' @ [TAB] @ ''B'' @ [NL]] @ (''justonefield'' @ [NL]) # [''C'' @ [TAB] @ ''D'' @ [NL]])) =
     [(''A'', [''B'']), (''C'', [''D''])]"
proof -
  have m: "malformed (''justonefield'' @ [NL])"
    by code_simp
  have s: "strip (''justonefield'' @ [NL]) = ''justonefield''"
    by code_simp
  have i: "snd (ingest [''A'' @ [TAB] @ ''B'' @ [NL]]) = []" "snd (ingest [''C'' @ [TAB] @ ''D'' @ [NL]]) = []"
    "fst (ingest ([''A'' @ [TAB] @ ''B'' @ [NL]] @ [''C'' @ [TAB] @ ''D'' @ [NL]])) =
     [(''A'', [''B'']), (''C'', [''D''])]"
    by code_simp+
  show ?thesis
    using malformed_line_skipped [OF m, of "[''A'' @ [TAB] @ ''B'' @ [NL]]" "[''C'' @ [TAB] @ ''D'' @ [NL]]",
        unfolded s i]
    by simp
qed

section \<open>One cluster line\<close>

lemma all_members_props:
  "distinct (all_members ms) \<and> sorted (all_members ms) \<and> set (all_members ms) = set ms"
  by (simp add: all_members_def)

lemma split_on_join:
  "xs \<noteq> [] \<Longrightarrow> \<forall>x \<in> set xs. c \<notin> set x \<Longrightarrow> split_on c (join [c] xs) = xs"
proof (induction "[c]" xs rule: join.induct)
  case 1
  then show ?case by simp
next
  case (2 x)
  then show ?case by (simp add: split_on_no_sep)
next
  case (3 x y ys)
  then show ?case using split_on_append_sep [of c x "join [c] (y # ys)"] by simp
qed

lemma cluster_line_nth:
  "i < length sc \<Longrightarrow> drop 6 (report_chunks sc) ! i = cluster_line (Suc i, sc ! i)"
  by (simp add: cluster_lines_of_report nth_enumerate_eq)

text \<open>
  Claim C7. The cluster line of the group at position \<open>i\<close> of the sorted order is
  \<open>Cluster_<i+1><TAB><size><TAB><representative><TAB><members><NL>\<close>, where the size is the
  number of distinct members of the group (not the length of the raw list) and the members
  text is the comma-joined list \<open>sorted(set(members))\<close>. That list has no repeated string, is
  sorted ascending and holds exactly the members of the group. When no member contains a
  comma, splitting the members text at the commas gives that list back.
\<close>

theorem cluster_line_members:
  assumes "i < length sc" and "sc ! i = (r, ms)"
  shows "drop 6 (report_chunks sc) ! i =
           ''Cluster_'' @ str_nat (Suc i) @ [TAB] @ str_nat (card (set ms)) @ [TAB] @ r @ [TAB]
             @ join '','' (all_members ms) @ [NL]
         \<and> distinct (all_members ms)
         \<and> sorted (all_members ms)
         \<and> set (all_members ms) = set ms
         \<and> (ms \<noteq> [] \<and> (\<forall>m \<in> set ms. CHR '','' \<notin> set m) \<longrightarrow>
              split_on (CHR '','') (join '','' (all_members ms)) = all_members ms)"
proof -
  have a: "drop 6 (report_chunks sc) ! i =
           ''Cluster_'' @ str_nat (Suc i) @ [TAB] @ str_nat (card (set ms)) @ [TAB] @ r @ [TAB]
             @ join '','' (all_members ms) @ [NL]"
    using assms by (simp add: cluster_line_nth cluster_line_def reported_size_card)
  have b: "split_on (CHR '','') (join '','' (all_members ms)) = all_members ms"
    if "ms \<noteq> []" "\<forall>m \<in> set ms. CHR '','' \<notin> set m"
  proof (rule split_on_join)
    from that(1) have "set (all_members ms) \<noteq> {}" by (simp add: all_members_def)
    then show "all_members ms \<noteq> []" by auto
    from that(2) show "\<forall>x \<in> set (all_members ms). CHR '','' \<notin> set x"
      by (simp add: all_members_def)
  qed
  from a b all_members_props [of ms] show ?thesis by blast
qed

text \<open>The theorem for a group \<open>A\<close> whose raw list is \<open>z\<close>, \<open>B\<close>, \<open>z\<close>, \<open>A\<close>.\<close>

theorem cluster_line_members_witness:
  "drop 6 (report_chunks [(''A'', [''z'', ''B'', ''z'', ''A''])]) ! 0 =
     ''Cluster_1'' @ [TAB] @ ''3'' @ [TAB] @ ''A'' @ [TAB] @ ''A,B,z'' @ [NL]
   \<and> split_on (CHR '','') ''A,B,z'' = [''A'', ''B'', ''z'']"
proof -
  have i: "0 < length [(''A'', [''z'', ''B'', ''z'', ''A''])]"
    by simp
  have n: "[(''A'', [''z'', ''B'', ''z'', ''A''])] ! 0 = (''A'', [''z'', ''B'', ''z'', ''A''])"
    by simp
  have c: "[''z'', ''B'', ''z'', ''A''] \<noteq> [] \<and> (\<forall>m \<in> set [''z'', ''B'', ''z'', ''A'']. CHR '','' \<notin> set m)"
    by simp
  have e: "all_members [''z'', ''B'', ''z'', ''A''] = [''A'', ''B'', ''z'']"
    "str_nat (Suc 0) = ''1''" "str_nat (card (set [''z'', ''B'', ''z'', ''A''])) = ''3''"
    "join '','' [''A'', ''B'', ''z''] = ''A,B,z''"
    by code_simp+
  show ?thesis
    using cluster_line_members [OF i n, unfolded e] c by simp
qed

section \<open>The option \<open>--min-size\<close>\<close>

text \<open>
  Claim C8. Whatever value \<open>--min-size\<close> has, the output file and the exit code are those of
  the run with the default value 1, for every input and every behaviour of the two paths.
  Standard output is that of the default run too, and with it the cluster and sequence
  counts of the summary, after one more line, the note, when the value is above 1. The
  default run is the call of \<open>parse_mmseqs2_clusters\<close> on the two paths: no filtering takes
  place.
\<close>

theorem min_size_ignored:
  "out_file (main (a\<lparr>min_size := n\<rparr>) src fault old) =
     out_file (main (a\<lparr>min_size := 1\<rparr>) src fault old)
   \<and> exit_code (main (a\<lparr>min_size := n\<rparr>) src fault old) =
     exit_code (main (a\<lparr>min_size := 1\<rparr>) src fault old)
   \<and> stdout (main (a\<lparr>min_size := n\<rparr>) src fault old) =
     (if n > 1 then [''Note: Filtering clusters with size >= '' @ str_int n] else [])
       @ stdout (main (a\<lparr>min_size := 1\<rparr>) src fault old)
   \<and> main (a\<lparr>min_size := 1\<rparr>) src fault old =
     parse_mmseqs2_clusters src fault old (cluster_tsv a) (output_file a)"
  by (simp add: main_def Let_def)

text \<open>The theorem for \<open>--min-size 5\<close> on an input whose clusters have sizes 2 and 1.\<close>

theorem min_size_ignored_witness:
  "out_file (main \<lparr>cluster_tsv = ''clusters.tsv'', output_file = ''numbered_clusters.txt'',
        min_size = 5\<rparr>
      (Readable [''A'' @ [TAB] @ ''A'' @ [NL], ''A'' @ [TAB] @ ''B'' @ [NL], ''C'' @ [TAB] @ ''C'' @ [NL]])
      NoFault None) =
     Some (''# MMseqs2 Clusters'' @ [NL] @
           ''# Total clusters: 2'' @ [NL] @
           ''# Total sequences: 3'' @ [NL] @
           ''#'' @ [NL] @
           ''# Format: Cluster_ID<TAB>Size<TAB>Representative<TAB>Members (comma-separated)'' @ [NL] @
           ''#'' @ [NL] @
           ''Cluster_1'' @ [TAB] @ ''2'' @ [TAB] @ ''A'' @ [TAB] @ ''A,B'' @ [NL] @
           ''Cluster_2'' @ [TAB] @ ''1'' @ [TAB] @ ''C'' @ [TAB] @ ''C'' @ [NL])"
proof -
  have d: "out_file (parse_mmseqs2_clusters
      (Readable [''A'' @ [TAB] @ ''A'' @ [NL], ''A'' @ [TAB] @ ''B'' @ [NL], ''C'' @ [TAB] @ ''C'' @ [NL]])
      NoFault None ''clusters.tsv'' ''numbered_clusters.txt'') =
     Some (''# MMseqs2 Clusters'' @ [NL] @
           ''# Total clusters: 2'' @ [NL] @
           ''# Total sequences: 3'' @ [NL] @
           ''#'' @ [NL] @
           ''# Format: Cluster_ID<TAB>Size<TAB>Representative<TAB>Members (comma-separated)'' @ [NL] @
           ''#'' @ [NL] @
           ''Cluster_1'' @ [TAB] @ ''2'' @ [TAB] @ ''A'' @ [TAB] @ ''A,B'' @ [NL] @
           ''Cluster_2'' @ [TAB] @ ''1'' @ [TAB] @ ''C'' @ [TAB] @ ''C'' @ [NL])"
    by code_simp
  show ?thesis
    using min_size_ignored [where a = "\<lparr>cluster_tsv = ''clusters.tsv'',
        output_file = ''numbered_clusters.txt'', min_size = 1\<rparr>" and n = 5
        and src = "Readable [''A'' @ [TAB] @ ''A'' @ [NL], ''A'' @ [TAB] @ ''B'' @ [NL],
          ''C'' @ [TAB] @ ''C'' @ [NL]]"
        and fault = NoFault and old = None] d
    by simp
qed

section \<open>Failures while writing the report\<close>








section \<open>Failures while reading the input\<close>

lemma parse_missing:
  "parse_mmseqs2_clusters Missing fault old tsv_path out_path =
     \<lparr>stdout = [''Error: File '' @ [CHR 0x27] @ tsv_path @ [CHR 0x27] @ '' not found.''],
      exit_code = 1, out_file = old\<rparr>"
  by (simp add: parse_mmseqs2_clusters_def read_tsv_def)

lemma parse_unreadable:
  "parse_mmseqs2_clusters (Unreadable ls e) fault old tsv_path out_path =
     \<lparr>stdout = snd (ingest ls) @ [''Error reading file: '' @ e],
      exit_code = 1, out_file = old\<rparr>"
  by (simp add: parse_mmseqs2_clusters_def read_tsv_def)

text \<open>
  Claim C6, as the code has it. When the input path does not exist, the run prints
  \<open>Error: File '<path>' not found.\<close>, which names the path. When reading raises any other
  exception, the run prints the warnings of the lines read so far and then
  \<open>Error reading file: \<close> followed by the text of the exception, to which the code adds
  nothing. In both cases the exit code is 1 and the output path is left as it was,
  whatever writing to it would have done.
\<close>

theorem read_failure:
  "parse_mmseqs2_clusters Missing fault old tsv_path out_path =
     \<lparr>stdout = [''Error: File '' @ [CHR 0x27] @ tsv_path @ [CHR 0x27] @ '' not found.''],
      exit_code = 1, out_file = old\<rparr>
   \<and> sublist tsv_path (''Error: File '' @ [CHR 0x27] @ tsv_path @ [CHR 0x27] @ '' not found.'')
   \<and> parse_mmseqs2_clusters (Unreadable ls e) fault old tsv_path out_path =
     \<lparr>stdout = snd (ingest ls) @ [''Error reading file: '' @ e],
      exit_code = 1, out_file = old\<rparr>"
proof -
  have "sublist tsv_path ((''Error: File '' @ [CHR 0x27]) @ tsv_path @ ([CHR 0x27] @ '' not found.''))"
    by (rule sublist_appendI)
  then have "sublist tsv_path (''Error: File '' @ [CHR 0x27] @ tsv_path @ [CHR 0x27] @ '' not found.'')"
    by simp
  then show ?thesis
    using parse_missing [of fault old tsv_path out_path]
      parse_unreadable [of ls e fault old tsv_path out_path]
    by blast
qed

text \<open>The theorem for a missing input and an output path that holds an older report.\<close>

theorem read_failure_witness:
  "parse_mmseqs2_clusters Missing NoFault (Some ''an older report'')
      ''clusters.tsv'' ''numbered_clusters.txt'' =
     \<lparr>stdout = [''Error: File 'clusters.tsv' not found.''],
      exit_code = 1, out_file = Some ''an older report''\<rparr>
   \<and> sublist ''clusters.tsv'' ''Error: File 'clusters.tsv' not found.''"
  using read_failure [of NoFault "Some ''an older report''" "''clusters.tsv''"
      "''numbered_clusters.txt''" "[]" "''''"]
  by simp

text \<open>
  The claim as the specification words it fails for an input that exists and cannot be
  decoded: the text of the exception does not hold the path, and it is all that is
  printed.
\<close>

theorem read_failure_counterexample:
  "parse_mmseqs2_clusters
      (Unreadable [] '''utf-8' codec can't decode byte 0xff in position 0: invalid start byte'')
      NoFault None ''clusters.tsv'' ''numbered_clusters.txt'' =
     \<lparr>stdout = [''Error reading file: 'utf-8' codec can't decode byte 0xff in position 0: invalid start byte''],
      exit_code = 1, out_file = None\<rparr>
   \<and> \<not> sublist ''clusters.tsv''
        ''Error reading file: 'utf-8' codec can't decode byte 0xff in position 0: invalid start byte''"
  by code_simp

section \<open>Tabs at the edge of a line\<close>

lemma no_tab_malformed: "TAB \<notin> set (strip l) \<Longrightarrow> strip l \<noteq> [] \<Longrightarrow> malformed l"
  by (simp add: malformed_def split_on_no_sep)

lemma strip_edge_tab_right:
  "\<forall>c \<in> set ws. isspace c \<Longrightarrow> strip (a @ TAB # ws) = strip a"
proof (induction ws rule: rev_induct)
  case Nil
  show ?case using strip_space_append [OF isspace_TAB, of a] by simp
next
  case (snoc c ws)
  then have "isspace c" by simp
  then have "strip ((a @ TAB # ws) @ [c]) = strip (a @ TAB # ws)"
    by (rule strip_space_append)
  with snoc show ?case by simp
qed

lemma strip_edge_tab_left:
  "\<forall>c \<in> set ws. isspace c \<Longrightarrow> strip (ws @ TAB # a) = strip a"
  by (induction ws) (simp_all add: strip_space_Cons isspace_TAB)

lemma split_on_first_Nil: "split_on sep s ! 0 = [] \<longleftrightarrow> s = [] \<or> hd s = sep"
  by (cases s) (auto split: list.splits simp: split_on_not_Nil)

lemma well_formed_has_tab: "well_formed l \<Longrightarrow> TAB \<in> set (strip l)"
  by (rule ccontr) (simp add: well_formed_def split_on_no_sep)

lemma representative_not_empty:
  assumes "well_formed l"
  shows "fst (record_of l) \<noteq> []"
proof -
  from assms have ne: "strip l \<noteq> []" by (simp add: well_formed_def)
  then have "\<not> isspace (hd (strip l))" by (rule strip_hd)
  then have "hd (strip l) \<noteq> TAB" using isspace_TAB by auto
  with ne show ?thesis by (simp add: record_of_def Let_def split_on_first_Nil)
qed

lemma member_empty_iff:
  assumes "well_formed l"
  shows "snd (record_of l) = [] \<longleftrightarrow>
         (\<exists>a rest. strip l = a @ TAB # TAB # rest \<and> TAB \<notin> set a)"
proof -
  from assms have ne: "strip l \<noteq> []" by (simp add: well_formed_def)
  from well_formed_has_tab [OF assms] obtain a rest' where
    s: "strip l = a @ TAB # rest'" and a: "TAB \<notin> set a"
    by (auto dest: split_list_first)
  have sp: "split_on TAB (strip l) = a # split_on TAB rest'"
    by (simp only: s split_on_append_sep [OF a])
  then have m: "snd (record_of l) = split_on TAB rest' ! 0"
    by (simp add: record_of_def Let_def)
  have "rest' \<noteq> []"
  proof
    assume "rest' = []"
    with s have "last (strip l) = TAB" by simp
    with strip_last [OF ne] isspace_TAB show False by simp
  qed
  with m have m': "snd (record_of l) = [] \<longleftrightarrow> hd rest' = TAB"
    by (simp add: split_on_first_Nil)
  show ?thesis
  proof
    assume "snd (record_of l) = []"
    with m' \<open>rest' \<noteq> []\<close> obtain rest where "rest' = TAB # rest"
      by (cases rest') auto
    with s a show "\<exists>a rest. strip l = a @ TAB # TAB # rest \<and> TAB \<notin> set a" by blast
  next
    assume "\<exists>a rest. strip l = a @ TAB # TAB # rest \<and> TAB \<notin> set a"
    then obtain b rest where b: "strip l = b @ TAB # TAB # rest" "TAB \<notin> set b" by blast
    then have "split_on TAB (strip l) = b # split_on TAB (TAB # rest)"
      using split_on_append_sep [of TAB b "TAB # rest"] by simp
    then show "snd (record_of l) = []"
      by (simp add: record_of_def Let_def)
  qed
qed

text \<open>
  Claim C9, as the code has it. A line made of a field, one tab and then only whitespace
  (such as \<open>A<TAB>\<close>), or of whitespace, one tab and then a field (such as \<open><TAB>B\<close>), where
  the field is not blank and holds no tab after stripping, loses the tab when it is
  stripped and is skipped with the warning for a malformed line. No line at all brings an
  empty representative into a cluster, and an empty member comes only from a line in which,
  after stripping, two tabs follow the first field directly.
\<close>

theorem edge_tab_lines:
  "((\<forall>c \<in> set ws. isspace c) \<and> TAB \<notin> set (strip a) \<and> strip a \<noteq> [] \<longrightarrow>
      process_line st (a @ TAB # ws) =
        (fst st, snd st @ [''Warning: Skipping malformed line: '' @ strip a])
      \<and> process_line st (ws @ TAB # a) =
        (fst st, snd st @ [''Warning: Skipping malformed line: '' @ strip a]))
   \<and> (\<forall>p \<in> pairs (fst (ingest ls)). fst p \<noteq> [])
   \<and> (\<forall>p \<in> pairs (fst (ingest ls)). snd p = [] \<longrightarrow>
        (\<exists>l \<in> set ls. \<exists>b rest. strip l = b @ TAB # TAB # rest \<and> TAB \<notin> set b))"
proof -
  have w: "process_line st l = (fst st, snd st @ [''Warning: Skipping malformed line: '' @ strip a])"
    if "strip l = strip a" "TAB \<notin> set (strip a)" "strip a \<noteq> []" for l
  proof -
    from that have "malformed l" by (simp add: no_tab_malformed)
    then show ?thesis
      by (simp add: process_line_malformed malformed_warning_def that(1))
  qed
  have a: "(\<forall>c \<in> set ws. isspace c) \<and> TAB \<notin> set (strip a) \<and> strip a \<noteq> [] \<longrightarrow>
      process_line st (a @ TAB # ws) =
        (fst st, snd st @ [''Warning: Skipping malformed line: '' @ strip a])
      \<and> process_line st (ws @ TAB # a) =
        (fst st, snd st @ [''Warning: Skipping malformed line: '' @ strip a])"
    using w strip_edge_tab_right [of ws a] strip_edge_tab_left [of ws a] by blast
  have b: "\<forall>p \<in> pairs (fst (ingest ls)). fst p \<noteq> []"
    by (auto simp: pairs_ingest representative_not_empty)
  have c: "\<forall>p \<in> pairs (fst (ingest ls)). snd p = [] \<longrightarrow>
        (\<exists>l \<in> set ls. \<exists>b rest. strip l = b @ TAB # TAB # rest \<and> TAB \<notin> set b)"
    using member_empty_iff by (auto simp: pairs_ingest)
  from a b c show ?thesis by blast
qed

text \<open>The theorem for the lines \<open>A<TAB><NL>\<close> and \<open><TAB>A\<close>.\<close>

theorem edge_tab_lines_witness:
  "process_line ([], []) (''A'' @ TAB # [NL]) = ([], [''Warning: Skipping malformed line: A''])
   \<and> process_line ([], []) ([] @ TAB # ''A'') = ([], [''Warning: Skipping malformed line: A''])"
proof -
  have h: "(\<forall>c \<in> set [NL]. isspace c) \<and> TAB \<notin> set (strip ''A'') \<and> strip ''A'' \<noteq> []"
    by code_simp
  have h': "(\<forall>c \<in> set []. isspace c) \<and> TAB \<notin> set (strip ''A'') \<and> strip ''A'' \<noteq> []"
    by code_simp
  have s: "strip ''A'' = ''A''"
    by code_simp
  show ?thesis
    using edge_tab_lines [where ws = "[NL]" and a = "''A''" and st = "([], [])" and ls = "[]"]
      edge_tab_lines [where ws = "[]" and a = "''A''" and st = "([], [])" and ls = "[]"] h h'
    unfolding s by simp
qed

text \<open>
  The claim as the specification words it fails for a line that begins with a tab and has
  another tab inside: the first field of \<open><TAB>B<TAB>C\<close> is empty at the edge of the line,
  yet the line is not malformed, and it is stored with representative \<open>B\<close> and member \<open>C\<close>.
  From \<open><TAB>A<TAB><TAB>B\<close> an empty member enters the cluster of \<open>A\<close>.
\<close>

theorem edge_tab_lines_counterexample:
  "split_on TAB (TAB # ''B'' @ [TAB] @ ''C'' @ [NL]) ! 0 = []
   \<and> \<not> malformed (TAB # ''B'' @ [TAB] @ ''C'' @ [NL])
   \<and> process_line ([], []) (TAB # ''B'' @ [TAB] @ ''C'' @ [NL]) = ([(''B'', [''C''])], [])
   \<and> process_line ([], []) (TAB # ''A'' @ [TAB, TAB] @ ''B'' @ [NL]) = ([(''A'', [''''])], [])"
  by code_simp

end
